theory Spec2Isabelle
  imports Complex_Main
begin

section \<open>Strings: the fragments of Python's \<open>str\<close> that ingest.py uses\<close>

text \<open>
  Paths and extensions are \<open>string\<close>s. \<open>str.lower\<close> and \<open>str.upper\<close> are modelled on the
  ASCII letters and leave every other character alone: the keys of the loader table are
  ASCII, and no non-ASCII character lowercases to one of the letters that occur in them.
\<close>

definition ascii_uppercase :: string where
  "ascii_uppercase = ''ABCDEFGHIJKLMNOPQRSTUVWXYZ''"

definition ascii_lowercase :: string where
  "ascii_lowercase = ''abcdefghijklmnopqrstuvwxyz''"

definition lower_char :: "char \<Rightarrow> char" where
  "lower_char c =
     (case map_of (zip ascii_uppercase ascii_lowercase) c of Some d \<Rightarrow> d | None \<Rightarrow> c)"

definition upper_char :: "char \<Rightarrow> char" where
  "upper_char c =
     (case map_of (zip ascii_lowercase ascii_uppercase) c of Some d \<Rightarrow> d | None \<Rightarrow> c)"

definition lower :: "string \<Rightarrow> string" where
  "lower s = map lower_char s"

definition upper :: "string \<Rightarrow> string" where
  "upper s = map upper_char s"

text \<open>
  \<^verbatim>\<open>s.rsplit(sep, 1)[-1]\<close>: the text after the last occurrence of \<open>sep\<close>, and the whole
  string when \<open>sep\<close> does not occur.
\<close>

definition rsplit_last :: "char \<Rightarrow> string \<Rightarrow> string" where
  "rsplit_last sep s = rev (takeWhile (\<lambda>c. c \<noteq> sep) (rev s))"

text \<open>\<^verbatim>\<open>needle in haystack\<close> on strings: \<open>needle\<close> occurs as a contiguous block.\<close>

fun str_contains :: "string \<Rightarrow> string \<Rightarrow> bool" where
  "str_contains needle [] = (needle = [])"
| "str_contains needle (c # cs) =
     (take (length needle) (c # cs) = needle \<or> str_contains needle cs)"


section \<open>Format registry and single-document loading\<close>

datatype loader_class =
    CSVLoader
  | EverNoteLoader
  | PyPDFLoader
  | TextLoader
  | UnstructuredEPubLoader
  | UnstructuredHTMLLoader
  | UnstructuredMarkdownLoader
  | UnstructuredODTLoader
  | UnstructuredPowerPointLoader
  | UnstructuredWordDocumentLoader

type_synonym loader_args = "(string \<times> string) list"

text \<open>
  \<open>LOADER_MAPPING\<close> is a dict literal; iteration over it follows insertion order, so it
  is kept as an association list in the order of the source.
\<close>

definition LOADER_MAPPING :: "(string \<times> loader_class \<times> loader_args) list" where
  "LOADER_MAPPING =
     [(''.csv'', CSVLoader, []),
      (''.doc'', UnstructuredWordDocumentLoader, []),
      (''.docx'', UnstructuredWordDocumentLoader, []),
      (''.enex'', EverNoteLoader, []),
      (''.epub'', UnstructuredEPubLoader, []),
      (''.html'', UnstructuredHTMLLoader, []),
      (''.md'', UnstructuredMarkdownLoader, []),
      (''.odt'', UnstructuredODTLoader, []),
      (''.pdf'', PyPDFLoader, []),
      (''.ppt'', UnstructuredPowerPointLoader, []),
      (''.pptx'', UnstructuredPowerPointLoader, []),
      (''.txt'', TextLoader, [(''encoding'', ''utf8'')])]"

text \<open>
  A langchain \<open>Document\<close>: its text and the \<open>source\<close> entry of its metadata, the only
  metadata key ingest.py reads.
\<close>

record document =
  page_content :: string
  source :: string

text \<open>
  Exceptions that travel through ingest.py: its own \<open>ValueError\<close>, the \<open>AttributeError\<close>
  of a call to a method the object does not have (with the name of the method), and
  whatever a loader or the embedding probe raises (payload \<open>'e\<close>).
\<close>

datatype 'e exn =
    ValueError string
  | AttributeError string
  | LoaderError 'e
  | ProbeError 'e

text \<open>
  The loader classes live in langchain. \<open>loader.load()\<close> is a parameter of the model:
  given class, keyword arguments and path it returns documents or raises.
\<close>

type_synonym 'e loader_fn = "loader_class \<Rightarrow> loader_args \<Rightarrow> string \<Rightarrow> 'e + document list"

text \<open>The local \<open>ext\<close> of \<open>load_single_document\<close>.\<close>

definition file_ext :: "string \<Rightarrow> string" where
  "file_ext file_path = ''.'' @ lower (rsplit_last (CHR ''.'') file_path)"

text \<open>The table entry that \<open>load_single_document\<close> dispatches on.\<close>

definition resolve :: "string \<Rightarrow> (loader_class \<times> loader_args) option" where
  "resolve file_path = map_of LOADER_MAPPING (file_ext file_path)"

definition unsupported_message :: "string \<Rightarrow> string" where
  "unsupported_message ext = ''Unsupported file extension '' @ [CHR 0x27] @ ext @ [CHR 0x27]"

definition load_single_document :: "'e loader_fn \<Rightarrow> string \<Rightarrow> 'e exn + document list" where
  "load_single_document run_loader file_path =
     (let ext = file_ext file_path in
      case map_of LOADER_MAPPING ext of
        Some (loader_class, loader_args) \<Rightarrow>
          (case run_loader loader_class loader_args file_path of
             Inl e \<Rightarrow> Inl (LoaderError e)
           | Inr docs \<Rightarrow> Inr docs)
      | None \<Rightarrow> Inl (ValueError (unsupported_message ext)))"


section \<open>The source directory and \<open>glob\<close>\<close>

text \<open>
  The tree below \<open>source_dir\<close>, as \<open>os.scandir\<close> lists it: files and directories by
  name, each directory with its entries in listing order.
\<close>

datatype fsnode = File string | Dir string "fsnode list"

fun node_name :: "fsnode \<Rightarrow> string" where
  "node_name (File n) = n"
| "node_name (Dir n entries) = n"

text \<open>\<open>glob._ishidden\<close>: the name starts with a dot.\<close>

definition ishidden :: "string \<Rightarrow> bool" where
  "ishidden name = (case name of [] \<Rightarrow> False | c # cs \<Rightarrow> c = CHR ''.'')"

text \<open>\<open>posixpath.join\<close> of two components.\<close>

definition path_join :: "string \<Rightarrow> string \<Rightarrow> string" where
  "path_join a b =
     (case b of
        c # cs \<Rightarrow>
          if c = CHR ''/'' then b
          else if a = [] \<or> last a = CHR ''/'' then a @ b
          else a @ ''/'' @ b
      | [] \<Rightarrow> if a = [] \<or> last a = CHR ''/'' then a else a @ ''/'')"

text \<open>
  The head that \<open>posixpath.split\<close> leaves of \<open>source_dir/**\<close>: trailing slashes are
  stripped unless the head consists of slashes only.
\<close>

definition split_head :: "string \<Rightarrow> string" where
  "split_head s =
     (let h = rev (dropWhile (\<lambda>c. c = CHR ''/'') (rev s)) in if h = [] then s else h)"

text \<open>
  \<open>fnmatch\<close> of a name against \<open>*\<close> followed by literal text: the name ends with that
  text. Matching is case-sensitive (POSIX \<open>normcase\<close> is the identity).
\<close>

definition endswith :: "string \<Rightarrow> string \<Rightarrow> bool" where
  "endswith name ext =
     (length ext \<le> length name \<and> drop (length name - length ext) name = ext)"

text \<open>
  \<open>glob._glob1\<close> for a pattern \<open>*ext\<close>: the entries of one directory, files and
  directories alike, that are not hidden and match.
\<close>

definition glob1 :: "fsnode list \<Rightarrow> string \<Rightarrow> string list" where
  "glob1 entries ext =
     filter (\<lambda>n. \<not> ishidden n \<and> endswith n ext) (map node_name entries)"

text \<open>
  \<open>glob._rlistdir\<close> with \<open>dironly\<close>: every directory that is not hidden, before its own
  subdirectories, under its relative name, together with its entries.
\<close>

fun rlistdir :: "fsnode \<Rightarrow> (string \<times> fsnode list) list" where
  "rlistdir (File x) = []"
| "rlistdir (Dir x entries) =
     (if ishidden x then []
      else (x, entries) #
           map (\<lambda>(y, es). (path_join x y, es)) (concat (map rlistdir entries)))"

text \<open>
  \<^verbatim>\<open>glob.glob(os.path.join(source_dir, "**/*" + ext), recursive=True)\<close> for a
  \<open>source_dir\<close> without glob metacharacters whose entries are \<open>tree\<close>.
\<close>

definition glob_dirs :: "string \<Rightarrow> fsnode list \<Rightarrow> (string \<times> fsnode list) list" where
  "glob_dirs source_dir tree =
     (let top = split_head source_dir in
      (path_join top [], tree) #
      map (\<lambda>(y, es). (path_join top y, es)) (concat (map rlistdir tree)))"

definition glob_recursive :: "string \<Rightarrow> fsnode list \<Rightarrow> string \<Rightarrow> string list" where
  "glob_recursive source_dir tree ext =
     concat (map (\<lambda>(d, es). map (path_join d) (glob1 es ext)) (glob_dirs source_dir tree))"


section \<open>Scanning and loading the corpus\<close>

definition registry_keys :: "string list" where
  "registry_keys = map fst LOADER_MAPPING"

text \<open>The list \<open>all_files\<close> that the first loop of \<open>load_documents\<close> builds.\<close>

definition all_files :: "string \<Rightarrow> fsnode list \<Rightarrow> string list" where
  "all_files source_dir tree =
     concat (map (\<lambda>ext. glob_recursive source_dir tree (lower ext) @
                         glob_recursive source_dir tree (upper ext))
                 registry_keys)"

definition filtered_files :: "string list \<Rightarrow> string list \<Rightarrow> string list" where
  "filtered_files files ignored_files = filter (\<lambda>file_path. file_path \<notin> set ignored_files) files"

text \<open>
  The pool maps \<open>load_single_document\<close> over the filtered files and the results are
  concatenated; an exception in any worker ends the whole call. \<open>imap_unordered\<close> delivers
  in completion order; the model takes list order.
\<close>

fun load_all :: "'e loader_fn \<Rightarrow> string list \<Rightarrow> 'e exn + document list" where
  "load_all run_loader [] = Inr []"
| "load_all run_loader (p # ps) =
     (case load_single_document run_loader p of
        Inl e \<Rightarrow> Inl e
      | Inr docs \<Rightarrow>
          (case load_all run_loader ps of
             Inl e \<Rightarrow> Inl e
           | Inr rest \<Rightarrow> Inr (docs @ rest)))"

definition load_documents ::
  "'e loader_fn \<Rightarrow> string \<Rightarrow> fsnode list \<Rightarrow> string list \<Rightarrow> 'e exn + document list" where
  "load_documents run_loader source_dir tree ignored_files =
     load_all run_loader (filtered_files (all_files source_dir tree) ignored_files)"


section \<open>The vector store\<close>

text \<open>
  Chroma is external. A handle is modelled by what ingest.py observes of it: the records
  of the collection (what \<open>db.get()\<close> lists) and which embedding function is installed,
  the \<open>embeddings\<close> object or the adapter closure \<open>new_embedding_function\<close>.
  All handles of one client share the collection \<open>langchain\<close>, so \<open>Chroma.from_documents\<close>
  on the same client adds to the records already there and returns a fresh handle.
  The calls of methods the class has are taken to succeed; each is logged.
\<close>

datatype embedding_fn = Embeddings | NewEmbeddingFunction

record chroma =
  collection :: "document list"
  embedding_function :: embedding_fn

datatype call =
    Get
  | SplitDocuments "document list"
  | AddDocuments "document list"
  | FromDocuments "document list"
  | Persist

record session =
  db :: chroma
  calls :: "call list"

datatype ('e, 'a) outcome = Return 'a | Exit nat | Raise "'e exn"

definition open_chroma :: "document list \<Rightarrow> session" where
  "open_chroma stored =
     \<lparr>db = \<lparr>collection = stored, embedding_function = Embeddings\<rparr>, calls = []\<rparr>"

definition db_get :: "session \<Rightarrow> session \<times> document list" where
  "db_get s = (s\<lparr>calls := calls s @ [Get]\<rparr>, collection (db s))"

text \<open>
  \<open>db\<close> is a langchain \<open>Chroma\<close>, and that class has no method
  \<open>set_embedding_function\<close>: the call raises \<open>AttributeError\<close>, nothing reaches the
  store and the handle stays as it is.
\<close>

definition set_embedding_function :: "session \<Rightarrow> session \<times> ('e, unit) outcome" where
  "set_embedding_function s = (s, Raise (AttributeError ''set_embedding_function''))"

definition add_documents :: "session \<Rightarrow> document list \<Rightarrow> session" where
  "add_documents s batch_texts =
     s\<lparr>db := (db s)\<lparr>collection := collection (db s) @ batch_texts\<rparr>,
       calls := calls s @ [AddDocuments batch_texts]\<rparr>"

definition from_documents :: "session \<Rightarrow> document list \<Rightarrow> session" where
  "from_documents s batch_texts =
     s\<lparr>db := \<lparr>collection = collection (db s) @ batch_texts, embedding_function = Embeddings\<rparr>,
       calls := calls s @ [FromDocuments batch_texts]\<rparr>"

definition persist :: "session \<Rightarrow> session" where
  "persist s = s\<lparr>calls := calls s @ [Persist]\<rparr>"

text \<open>
  What \<^verbatim>\<open>embeddings("example text")\<close> does: return, raise a \<open>TypeError\<close> with a
  message, or raise something else.
\<close>

datatype 'e probe = ProbeReturns | ProbeTypeError string | ProbeRaises 'e

fun does_vectorstore_exist :: "session \<Rightarrow> 'e probe \<Rightarrow> session \<times> ('e, bool) outcome" where
  "does_vectorstore_exist s (ProbeRaises e) = (s, Raise (ProbeError e))"
| "does_vectorstore_exist s ProbeReturns =
     (let (s1, records) = db_get s in (s1, Return (map page_content records \<noteq> [])))"
| "does_vectorstore_exist s (ProbeTypeError msg) =
     (if str_contains ''got an unexpected keyword argument'' msg then
        (case set_embedding_function s of
           (s0, Return u) \<Rightarrow>
             (let (s1, records) = db_get s0 in (s1, Return (map page_content records \<noteq> [])))
         | (s0, Exit n) \<Rightarrow> (s0, Exit n)
         | (s0, Raise e) \<Rightarrow> (s0, Raise e))
      else (let (s1, records) = db_get s in (s1, Return (map page_content records \<noteq> []))))"

text \<open>
  The probes on which the check gets as far as reading the records: the probe returns,
  or raises a \<open>TypeError\<close> that the check swallows without trying to install the adapter.
\<close>

fun probe_passes :: "'e probe \<Rightarrow> bool" where
  "probe_passes ProbeReturns = True"
| "probe_passes (ProbeTypeError msg) =
     (\<not> str_contains ''got an unexpected keyword argument'' msg)"
| "probe_passes (ProbeRaises e) = False"


section \<open>Chunking, batching and the driver\<close>

definition chunk_size :: nat where "chunk_size = 500"
definition chunk_overlap :: nat where "chunk_overlap = 50"
definition batch_size :: nat where "batch_size = 50"

text \<open>
  \<open>RecursiveCharacterTextSplitter(chunk_size, chunk_overlap).split_documents\<close> is
  external: a parameter.
\<close>

type_synonym splitter = "nat \<Rightarrow> nat \<Rightarrow> document list \<Rightarrow> document list"

definition process_documents ::
  "'e loader_fn \<Rightarrow> splitter \<Rightarrow> string \<Rightarrow> fsnode list \<Rightarrow> session \<Rightarrow> string list \<Rightarrow>
   session \<times> ('e, document list) outcome" where
  "process_documents run_loader split_documents source_directory tree s ignored_files =
     (case load_documents run_loader source_directory tree ignored_files of
        Inl e \<Rightarrow> (s, Raise e)
      | Inr documents \<Rightarrow>
          if documents = [] then (s, Exit 0)
          else (s\<lparr>calls := calls s @ [SplitDocuments documents]\<rparr>,
                Return (split_documents chunk_size chunk_overlap documents)))"

text \<open>\<open>range(start, stop, step)\<close> for a positive step; ingest.py only uses step 50.\<close>

function py_range :: "nat \<Rightarrow> nat \<Rightarrow> nat \<Rightarrow> nat list" where
  "py_range i stop step =
     (if 0 < step \<and> i < stop then i # py_range (i + step) stop step else [])"
  by pat_completeness auto
termination
  by (relation "measure (\<lambda>(i, stop, step). stop - i)") auto

declare py_range.simps [simp del]

text \<open>The slice \<open>xs[i:j]\<close> for indices that are not negative.\<close>

definition py_slice :: "'a list \<Rightarrow> nat \<Rightarrow> nat \<Rightarrow> 'a list" where
  "py_slice xs i j = drop i (take j xs)"

text \<open>The values \<open>batch_texts\<close> takes in the two loops of \<open>main\<close>, in order.\<close>

definition batches :: "'a list \<Rightarrow> 'a list list" where
  "batches texts =
     map (\<lambda>i. py_slice texts i (i + batch_size)) (py_range 0 (length texts) batch_size)"

text \<open>
  \<open>main\<close>. \<open>stored\<close> is what the collection in \<open>persist_directory\<close> holds when the run
  starts; the result is the session at the end and how the process ends.
\<close>

definition main ::
  "'e probe \<Rightarrow> 'e loader_fn \<Rightarrow> splitter \<Rightarrow> string \<Rightarrow> fsnode list \<Rightarrow> document list \<Rightarrow>
   session \<times> ('e, unit) outcome" where
  "main embeddings run_loader split_documents source_directory tree stored =
     (case does_vectorstore_exist (open_chroma stored) embeddings of
        (s, Raise e) \<Rightarrow> (s, Raise e)
      | (s, Exit n) \<Rightarrow> (s, Exit n)
      | (s, Return True) \<Rightarrow>
          (let (s1, records) = db_get s in
           case process_documents run_loader split_documents source_directory tree s1
                  (map source records) of
             (s2, Raise e) \<Rightarrow> (s2, Raise e)
           | (s2, Exit n) \<Rightarrow> (s2, Exit n)
           | (s2, Return texts) \<Rightarrow>
               (persist (foldl add_documents s2 (batches texts)), Return ()))
      | (s, Return False) \<Rightarrow>
          (case process_documents run_loader split_documents source_directory tree s [] of
             (s2, Raise e) \<Rightarrow> (s2, Raise e)
           | (s2, Exit n) \<Rightarrow> (s2, Exit n)
           | (s2, Return texts) \<Rightarrow>
               (persist (foldl from_documents s2 (batches texts)), Return ())))"

text \<open>The exit status of the process.\<close>

fun exit_status :: "('e, 'a) outcome \<Rightarrow> nat" where
  "exit_status (Return v) = 0"
| "exit_status (Exit n) = n"
| "exit_status (Raise e) = 1"


section \<open>Shapes of the call log\<close>

text \<open>The calls that hand a batch to the store.\<close>

fun is_add :: "call \<Rightarrow> bool" where
  "is_add (AddDocuments b) = True"
| "is_add c = False"

fun is_from :: "call \<Rightarrow> bool" where
  "is_from (FromDocuments b) = True"
| "is_from c = False"

definition submissions :: "call list \<Rightarrow> call list" where
  "submissions cs = filter (\<lambda>c. is_add c \<or> is_from c) cs"

text \<open>
  The batch protocol in the words of the specification: the first batch creates the
  index, every later batch is appended with \<open>add_documents\<close>.
\<close>

definition create_then_append :: "call list \<Rightarrow> bool" where
  "create_then_append cs =
     (case submissions cs of [] \<Rightarrow> True | c # rest \<Rightarrow> is_from c \<and> list_all is_add rest)"

text \<open>
  Re-run idempotence in the words of the specification: started on the records the
  first run left, the second run loads no document.
\<close>

definition rerun_loads_nothing ::
  "'e probe \<Rightarrow> 'e loader_fn \<Rightarrow> splitter \<Rightarrow> string \<Rightarrow> fsnode list \<Rightarrow> document list \<Rightarrow> bool" where
  "rerun_loads_nothing embeddings run_loader split_documents source_directory tree stored =
     (load_documents run_loader source_directory tree
        (map source (collection (db (fst
           (main embeddings run_loader split_documents source_directory tree stored))))) = Inr [])"


section \<open>Concrete collaborators and corpora\<close>

text \<open>
  A loader that behaves like \<open>TextLoader\<close> on a directory in which every file holds the
  text \<open>hello\<close>, except files named \<open>empty.txt\<close>, which hold nothing: one document per
  file, with the path it was given as \<open>source\<close>.
\<close>

definition text_loader :: "unit loader_fn" where
  "text_loader loader_class loader_args file_path =
     Inr [\<lparr>page_content = (if endswith file_path ''empty.txt'' then [] else ''hello''),
           source = file_path\<rparr>]"

text \<open>
  A splitter that behaves like the recursive splitter on texts shorter than the chunk
  size: a document with text is one chunk, a document without text yields none.
\<close>

definition short_text_splitter :: splitter where
  "short_text_splitter sz overlap documents = filter (\<lambda>d. page_content d \<noteq> []) documents"

text \<open>
  A loader that behaves like \<open>CSVLoader\<close> on tables of fifty-one short rows: one document
  per row, each with the path of the file as \<open>source\<close>.
\<close>

definition table_loader :: "unit loader_fn" where
  "table_loader loader_class loader_args file_path =
     Inr (replicate 51 \<lparr>page_content = ''row'', source = file_path\<rparr>)"

text \<open>
  The probe of a run of \<open>main\<close>: \<open>HuggingFaceEmbeddings\<close> objects are not callable.
\<close>

definition not_callable_probe :: "unit probe" where
  "not_callable_probe =
     ProbeTypeError ([CHR 0x27] @ ''HuggingFaceEmbeddings'' @ [CHR 0x27] @
                     '' object is not callable'')"


definition corpus_with_table :: "fsnode list" where
  "corpus_with_table = [File ''table.csv'']"

definition corpus_with_empty_file :: "fsnode list" where
  "corpus_with_empty_file = [File ''a.txt'', File ''empty.txt'']"


section \<open>Lower-casing and the extension of a path\<close>

lemma lower_char_range:
  "map_of (zip ascii_uppercase ascii_lowercase) c = Some d \<Longrightarrow> d \<in> set ascii_lowercase"
  by (meson in_set_zipE map_of_SomeD)

lemma lower_char_fixed:
  assumes "map_of (zip ascii_uppercase ascii_lowercase) c = Some d"
  shows "map_of (zip ascii_uppercase ascii_lowercase) d = None"
proof -
  from assms have "d \<in> set ascii_lowercase" by (rule lower_char_range)
  then have "d \<notin> set ascii_uppercase"
    by (auto simp: ascii_uppercase_def ascii_lowercase_def)
  then show ?thesis
    by (simp add: map_of_eq_None_iff ascii_uppercase_def ascii_lowercase_def)
qed

lemma lower_char_idem: "lower_char (lower_char c) = lower_char c"
  by (cases "map_of (zip ascii_uppercase ascii_lowercase) c")
     (simp_all add: lower_char_def lower_char_fixed)

lemma lower_idem: "lower (lower s) = lower s"
  by (simp add: lower_def lower_char_idem)

lemma lower_char_dot: "lower_char c = CHR ''.'' \<longleftrightarrow> c = CHR ''.''"
  by (auto simp add: lower_char_def ascii_uppercase_def ascii_lowercase_def)

lemma rsplit_last_lower:
  "rsplit_last (CHR ''.'') (lower s) = lower (rsplit_last (CHR ''.'') s)"
proof -
  have "(\<lambda>c. c \<noteq> CHR ''.'') \<circ> lower_char = (\<lambda>c. c \<noteq> CHR ''.'')"
    by (auto simp: fun_eq_iff lower_char_dot)
  then show ?thesis
    by (simp add: rsplit_last_def lower_def rev_map takeWhile_map)
qed

lemma rsplit_last_after_sep: "rsplit_last sep (stem @ sep # e) = rsplit_last sep e"
  by (simp add: rsplit_last_def takeWhile_tail)

lemma file_ext_suffix:
  "file_ext (stem @ ''.'' @ e) = ''.'' @ lower (rsplit_last (CHR ''.'') e)"
  by (simp add: file_ext_def rsplit_last_after_sep)


section \<open>Dispatch on the extension\<close>

text \<open>
  C9. Resolving is case-insensitive: a path with extension \<open>e\<close> and the same path with
  \<open>e\<close> lower-cased (for instance \<open>.PDF\<close> and \<open>.pdf\<close>) select the same entry of the
  loader table, loader class and keyword arguments alike.
\<close>

theorem resolve_case_insensitive:
  "resolve (stem @ ''.'' @ e) = resolve (stem @ ''.'' @ lower e)"
  by (simp only: resolve_def file_ext_suffix rsplit_last_lower lower_idem)

theorem resolve_case_insensitive_witness:
  "resolve ''docs/report.PDF'' = resolve ''docs/report.pdf'' \<and>
   resolve ''docs/report.pdf'' = Some (PyPDFLoader, [])"
proof -
  have low: "lower ''PDF'' = ''pdf''"
    by (simp add: lower_def lower_char_def ascii_uppercase_def ascii_lowercase_def)
  have "resolve ''docs/report.pdf'' = Some (PyPDFLoader, [])"
    by (simp add: resolve_def file_ext_def rsplit_last_def lower_def lower_char_def
          ascii_uppercase_def ascii_lowercase_def LOADER_MAPPING_def)
  with resolve_case_insensitive [of "''docs/report''" "''PDF''"] low show ?thesis
    by simp
qed

text \<open>
  C4. \<open>load_single_document\<close> raises the unsupported-extension \<open>ValueError\<close> exactly when
  the lower-cased extension of the path is not a key of the loader table, and it hands the
  path to the loader registered for that extension exactly when it is a key; nothing is
  skipped silently. The extension is what the code takes it to be: the text after the
  last dot (the whole path when it has no dot).
\<close>

theorem load_single_document_dispatch:
  "(load_single_document run_loader file_path =
      Inl (ValueError (unsupported_message (file_ext file_path)))
    \<longleftrightarrow> file_ext file_path \<notin> set registry_keys) \<and>
   ((\<exists>loader_class loader_args.
        resolve file_path = Some (loader_class, loader_args) \<and>
        load_single_document run_loader file_path =
          (case run_loader loader_class loader_args file_path of
             Inl e \<Rightarrow> Inl (LoaderError e) | Inr docs \<Rightarrow> Inr docs))
    \<longleftrightarrow> file_ext file_path \<in> set registry_keys)"
proof (cases "map_of LOADER_MAPPING (file_ext file_path)")
  case None
  then have "file_ext file_path \<notin> set registry_keys"
    by (simp add: registry_keys_def map_of_eq_None_iff)
  with None show ?thesis
    by (simp add: load_single_document_def resolve_def)
next
  case (Some entry)
  then have "file_ext file_path \<in> set registry_keys"
    by (metis map_of_eq_None_iff option.distinct(1) registry_keys_def set_map)
  with Some show ?thesis
    by (cases entry) (auto simp add: load_single_document_def resolve_def split: sum.splits)
qed

theorem load_single_document_dispatch_witness:
  "file_ext ''notes.XYZ'' = ''.xyz'' \<and> ''.xyz'' \<notin> set registry_keys \<and>
   load_single_document text_loader ''notes.XYZ'' =
     Inl (ValueError (unsupported_message ''.xyz'')) \<and>
   file_ext ''notes.TXT'' = ''.txt'' \<and> ''.txt'' \<in> set registry_keys \<and>
   load_single_document text_loader ''notes.TXT'' \<noteq>
     Inl (ValueError (unsupported_message ''.txt''))"
proof -
  have x: "file_ext ''notes.XYZ'' = ''.xyz''"
    by (simp add: file_ext_def rsplit_last_def lower_def lower_char_def
          ascii_uppercase_def ascii_lowercase_def)
  have t: "file_ext ''notes.TXT'' = ''.txt''"
    by (simp add: file_ext_def rsplit_last_def lower_def lower_char_def
          ascii_uppercase_def ascii_lowercase_def)
  have kx: "''.xyz'' \<notin> set registry_keys"
    by (simp add: registry_keys_def LOADER_MAPPING_def)
  have kt: "''.txt'' \<in> set registry_keys"
    by (simp add: registry_keys_def LOADER_MAPPING_def)
  from load_single_document_dispatch [of text_loader "''notes.XYZ''"]
       load_single_document_dispatch [of text_loader "''notes.TXT''"] x t kx kt
  show ?thesis by simp
qed


section \<open>Exclusion of ingested paths\<close>

text \<open>
  C3. A path that the scan enumerated is dropped exactly when some member of the
  exclusion list is equal to it as a string. No path is normalised, so a path recorded as
  \<open>./docs/a.txt\<close> does not exclude \<open>docs/a.txt\<close>.
\<close>

theorem filtered_files_exact:
  "file_path \<in> set files \<Longrightarrow>
   file_path \<notin> set (filtered_files files ignored_files) \<longleftrightarrow>
   (\<exists>e \<in> set ignored_files. e = file_path)"
  by (auto simp: filtered_files_def)

theorem filtered_files_exact_witness:
  "''docs/a.txt'' \<in> set [''docs/a.txt'', ''docs/b.txt''] \<and>
   ''docs/b.txt'' \<in> set [''docs/a.txt'', ''docs/b.txt''] \<and>
   ''docs/a.txt'' \<in>
     set (filtered_files [''docs/a.txt'', ''docs/b.txt''] [''./docs/a.txt'', ''docs/b.txt'']) \<and>
   ''docs/b.txt'' \<notin>
     set (filtered_files [''docs/a.txt'', ''docs/b.txt''] [''./docs/a.txt'', ''docs/b.txt''])"
proof -
  have a: "''docs/a.txt'' \<in> set [''docs/a.txt'', ''docs/b.txt'']" by simp
  have b: "''docs/b.txt'' \<in> set [''docs/a.txt'', ''docs/b.txt'']" by simp
  from filtered_files_exact [OF a, of "[''./docs/a.txt'', ''docs/b.txt'']"]
       filtered_files_exact [OF b, of "[''./docs/a.txt'', ''docs/b.txt'']"]
  show ?thesis by simp
qed


section \<open>Batching\<close>

lemma ceil_step:
  "i < stop \<Longrightarrow> Suc ((stop - (i + 50) + 49) div 50) = (stop - i + 49) div (50::nat)"
proof (cases "stop - i < 50")
  case True
  assume "i < stop"
  with True have "(stop - i + 49) div 50 = 1"
    by (intro div_nat_eqI) simp_all
  moreover from True have "stop - (i + 50) = 0" by simp
  ultimately show ?thesis by simp
next
  case False
  then have "stop - i + 49 = (stop - (i + 50) + 49) + 50" by simp
  then show ?thesis by (simp only: div_add_self2)
qed

lemma ceiling_50: "\<lceil>real n / 50\<rceil> = int ((n + 49) div 50)"
proof (rule ceiling_unique)
  have eq: "n + 49 = 50 * ((n + 49) div 50) + (n + 49) mod 50" by simp
  have lt: "(n + 49) mod 50 < 50" by simp
  from eq lt have "50 * ((n + 49) div 50) < n + 50" by linarith
  then have "real (50 * ((n + 49) div 50)) < real (n + 50)" by (simp only: of_nat_less_iff)
  then show "real_of_int (int ((n + 49) div 50)) - 1 < real n / 50" by simp
  from eq have "n \<le> 50 * ((n + 49) div 50)" by linarith
  then have "real n \<le> real (50 * ((n + 49) div 50))" by (simp only: of_nat_le_iff)
  then show "real n / 50 \<le> real_of_int (int ((n + 49) div 50))" by simp
qed

lemma py_range_concat:
  "0 < b \<Longrightarrow> stop = length xs \<Longrightarrow>
   concat (map (\<lambda>j. py_slice xs j (j + b)) (py_range i stop b)) = drop i xs"
proof (induction i stop b rule: py_range.induct)
  case (1 i stop step)
  show ?case
  proof (cases "i < stop")
    case True
    have "drop i xs = drop i (take (i + step) xs @ drop (i + step) xs)" by simp
    also have "\<dots> = drop i (take (i + step) xs) @ drop (i + step) xs"
      using True "1.prems" by (simp del: append_take_drop_id)
    finally have split: "drop i xs = py_slice xs i (i + step) @ drop (i + step) xs"
      by (simp add: py_slice_def)
    from True "1.prems" "1.IH" show ?thesis
      by (subst py_range.simps) (simp add: split)
  next
    case False
    with "1.prems" show ?thesis by (subst py_range.simps) simp
  qed
qed

lemma py_range_length_50: "length (py_range i stop 50) = (stop - i + 49) div 50"
proof (induction i stop "50::nat" rule: py_range.induct)
  case (1 i stop)
  show ?case
  proof (cases "i < stop")
    case True
    with 1 have "length (py_range i stop 50) = Suc ((stop - (i + 50) + 49) div 50)"
      by (subst py_range.simps) simp
    also have "\<dots> = (stop - i + 49) div 50" using True by (rule ceil_step)
    finally show ?thesis .
  next
    case False
    then show ?thesis by (subst py_range.simps) simp
  qed
qed

lemma py_slice_length: "length (py_slice xs i (i + b)) \<le> b"
  by (simp add: py_slice_def)

lemma batches_concat: "concat (batches texts) = texts"
  using py_range_concat [of 50 "length texts" texts 0] by (simp add: batches_def batch_size_def)

text \<open>
  C6. With the batch size 50 of \<open>main\<close>, a chunk sequence of length \<open>N\<close> is cut into
  exactly \<open>\<lceil>N / 50\<rceil>\<close> batches, none longer than 50, and the batches put together in the
  order they are submitted give back the sequence: every chunk once, in the original
  order.
\<close>

theorem batches_partition:
  "int (length (batches texts)) = \<lceil>real (length texts) / 50\<rceil> \<and>
   (\<forall>batch_texts \<in> set (batches texts). length batch_texts \<le> 50) \<and>
   concat (batches texts) = texts"
proof -
  have len: "length (batches texts) = (length texts + 49) div 50"
    by (simp add: batches_def batch_size_def py_range_length_50)
  have "\<forall>batch_texts \<in> set (batches texts). length batch_texts \<le> 50"
    using py_slice_length [of texts _ 50] by (auto simp: batches_def batch_size_def)
  then show ?thesis using len batches_concat [of texts] by (simp add: ceiling_50)
qed

theorem batches_partition_witness:
  "int (length (batches ''abc'')) = \<lceil>real (length ''abc'') / 50\<rceil> \<and>
   list_all (\<lambda>batch_texts. length batch_texts \<le> 50) (batches ''abc'') \<and>
   concat (batches ''abc'') = ''abc'' \<and> batches ''abc'' = [''abc'']"
proof -
  have "batches ''abc'' = [''abc'']" by code_simp
  with batches_partition [of "''abc''"] show ?thesis by simp
qed


section \<open>The existence check\<close>

lemma exists_check_result:
  "probe_passes embeddings \<Longrightarrow>
   does_vectorstore_exist s embeddings =
     (fst (does_vectorstore_exist s embeddings), Return (collection (db s) \<noteq> []))"
  by (cases embeddings) (simp_all add: db_get_def)

lemma exists_check_raises:
  "\<not> probe_passes embeddings \<Longrightarrow> \<exists>x. does_vectorstore_exist s embeddings = (s, Raise x)"
  by (cases embeddings) (simp_all add: set_embedding_function_def)

lemma exists_check_frame: "db (fst (does_vectorstore_exist s embeddings)) = db s"
  by (cases embeddings) (simp_all add: db_get_def set_embedding_function_def)

text \<open>
  C7. Whenever the check gets as far as reading the records (the embedding probe returns
  or raises a \<open>TypeError\<close> that the check swallows), \<open>does_vectorstore_exist\<close> returns,
  and it returns true exactly when the collection holds at least one record. On every
  other probe an exception leaves the check before the index is looked at.
\<close>

theorem does_vectorstore_exist_iff:
  "probe_passes embeddings \<Longrightarrow>
   snd (does_vectorstore_exist s embeddings) = Return (collection (db s) \<noteq> [])"
  by (cases embeddings) (simp_all add: db_get_def)

theorem does_vectorstore_exist_iff_witness:
  "probe_passes not_callable_probe \<and>
   snd (does_vectorstore_exist (open_chroma [\<lparr>page_content = ''hello'', source = ''a.txt''\<rparr>])
          not_callable_probe) = Return True \<and>
   snd (does_vectorstore_exist (open_chroma []) not_callable_probe) = Return False \<and>
   snd (does_vectorstore_exist (open_chroma [\<lparr>page_content = ''hello'', source = ''a.txt''\<rparr>])
          (ProbeReturns :: unit probe)) = Return True \<and>
   snd (does_vectorstore_exist (open_chroma []) (ProbeReturns :: unit probe)) = Return False"
proof -
  have passes: "probe_passes not_callable_probe" by code_simp
  have returns: "probe_passes (ProbeReturns :: unit probe)" by simp
  from does_vectorstore_exist_iff [OF passes,
          of "open_chroma [\<lparr>page_content = ''hello'', source = ''a.txt''\<rparr>]"]
       does_vectorstore_exist_iff [OF passes, of "open_chroma []"]
       does_vectorstore_exist_iff [OF returns,
          of "open_chroma [\<lparr>page_content = ''hello'', source = ''a.txt''\<rparr>]"]
       does_vectorstore_exist_iff [OF returns, of "open_chroma []"]
       passes
  show ?thesis by (simp add: open_chroma_def)
qed



section \<open>The driver\<close>

lemma exists_check_collection:
  "collection (db (fst (does_vectorstore_exist s embeddings))) = collection (db s)"
  by (cases embeddings) (simp_all add: db_get_def set_embedding_function_def)

lemma exists_check_calls:
  "\<forall>c \<in> set (calls (fst (does_vectorstore_exist (open_chroma stored) embeddings))).
     c = Get"
  by (cases embeddings) (simp_all add: db_get_def set_embedding_function_def open_chroma_def)

lemma open_chroma_collection: "collection (db (open_chroma stored)) = stored"
  by (simp add: open_chroma_def)

lemma process_documents_nothing:
  "filtered_files (all_files source_directory tree) ignored_files = [] \<Longrightarrow>
   process_documents run_loader split_documents source_directory tree s ignored_files = (s, Exit 0)"
  by (simp add: process_documents_def load_documents_def)

lemma process_documents_texts:
  "load_documents run_loader source_directory tree ignored_files = Inr documents \<Longrightarrow>
   documents \<noteq> [] \<Longrightarrow>
   process_documents run_loader split_documents source_directory tree s ignored_files =
     (s\<lparr>calls := calls s @ [SplitDocuments documents]\<rparr>,
      Return (split_documents chunk_size chunk_overlap documents))"
  by (simp add: process_documents_def)

lemma foldl_from_documents:
  "calls (foldl from_documents s bs) = calls s @ map FromDocuments bs \<and>
   collection (db (foldl from_documents s bs)) = collection (db s) @ concat bs"
  by (induction bs arbitrary: s) (simp_all add: from_documents_def)

lemma foldl_add_documents:
  "calls (foldl add_documents s bs) = calls s @ map AddDocuments bs \<and>
   collection (db (foldl add_documents s bs)) = collection (db s) @ concat bs"
  by (induction bs arbitrary: s) (simp_all add: add_documents_def)

lemma submissions_simps:
  "submissions [] = []"
  "submissions (c # cs) = (if is_add c \<or> is_from c then c # submissions cs else submissions cs)"
  by (simp_all add: submissions_def)

lemma submissions_append: "submissions (xs @ ys) = submissions xs @ submissions ys"
  by (simp add: submissions_def)

lemma submissions_from: "submissions (map FromDocuments bs) = map FromDocuments bs"
  by (induction bs) (simp_all add: submissions_def)

lemma submissions_add: "submissions (map AddDocuments bs) = map AddDocuments bs"
  by (induction bs) (simp_all add: submissions_def)

lemma submissions_reads:
  "\<forall>c \<in> set cs. c = Get \<Longrightarrow> submissions cs = []"
  by (induction cs) (auto simp: submissions_def)

text \<open>A run that finds nothing to load stops in \<open>process_documents\<close> with \<open>exit(0)\<close>.\<close>

lemma main_nothing_to_load:
  assumes probe: "probe_passes embeddings"
    and none: "filtered_files (all_files source_directory tree) (map source stored) = []"
  shows "main embeddings run_loader split_documents source_directory tree stored =
     (if stored = [] then fst (does_vectorstore_exist (open_chroma stored) embeddings)
      else fst (db_get (fst (does_vectorstore_exist (open_chroma stored) embeddings))),
      Exit 0)"
proof (cases "stored = []")
  case True
  with none have "filtered_files (all_files source_directory tree) [] = []" by simp
  with True show ?thesis
    apply (simp only: main_def)
    apply (subst exists_check_result [OF probe])
    apply (simp add: process_documents_nothing open_chroma_def)
    done
next
  case False
  from False show ?thesis
    apply (simp only: main_def)
    apply (subst exists_check_result [OF probe])
    apply (simp add: open_chroma_def)
    apply (simp add: db_get_def exists_check_collection process_documents_nothing [OF none])
    done
qed

text \<open>The run on an index without records, when there is something to load.\<close>

lemma main_fresh_run:
  assumes probe: "probe_passes embeddings"
    and docs: "load_documents run_loader source_directory tree [] = Inr documents"
    and ne: "documents \<noteq> []"
  shows "main embeddings run_loader split_documents source_directory tree [] =
     (persist (foldl from_documents
        ((fst (does_vectorstore_exist (open_chroma []) embeddings))
           \<lparr>calls := calls (fst (does_vectorstore_exist (open_chroma []) embeddings)) @
                      [SplitDocuments documents]\<rparr>)
        (batches (split_documents chunk_size chunk_overlap documents))), Return ())"
  apply (simp only: main_def)
  apply (subst exists_check_result [OF probe])
  apply (simp add: open_chroma_def process_documents_texts [OF docs ne])
  done

text \<open>The run on an index that has records: every batch goes through \<open>add_documents\<close>.\<close>

lemma main_existing_run:
  assumes probe: "probe_passes embeddings"
    and stored: "stored \<noteq> []"
    and docs: "load_documents run_loader source_directory tree (map source stored) = Inr documents"
    and ne: "documents \<noteq> []"
  shows "submissions (calls (fst (main embeddings run_loader split_documents source_directory
                                    tree stored))) =
           map AddDocuments (batches (split_documents chunk_size chunk_overlap documents)) \<and>
         collection (db (fst (main embeddings run_loader split_documents source_directory
                                tree stored))) =
           stored @ split_documents chunk_size chunk_overlap documents"
proof -
  have reads: "submissions (calls (fst (does_vectorstore_exist (open_chroma stored) embeddings))) = []"
    by (rule submissions_reads) (rule exists_check_calls)
  have run: "main embeddings run_loader split_documents source_directory tree stored =
     (persist (foldl add_documents
        ((fst (does_vectorstore_exist (open_chroma stored) embeddings))
           \<lparr>calls := calls (fst (does_vectorstore_exist (open_chroma stored) embeddings)) @
                      [Get, SplitDocuments documents]\<rparr>)
        (batches (split_documents chunk_size chunk_overlap documents))), Return ())"
    using stored
    apply (simp only: main_def)
    apply (subst exists_check_result [OF probe])
    apply (simp add: open_chroma_def)
    apply (simp add: db_get_def exists_check_collection process_documents_texts [OF docs ne])
    done
  show ?thesis
    by (simp add: run persist_def foldl_add_documents submissions_append submissions_add
          reads exists_check_collection batches_concat open_chroma_collection submissions_simps)
qed

text \<open>A run never removes a record: the collection it leaves extends the one it found.\<close>

lemma main_collection_grows:
  "\<exists>new. collection (db (fst (main embeddings run_loader split_documents source_directory
                                  tree stored))) = stored @ new"
proof (cases "probe_passes embeddings")
  case False
  then obtain x where
    "does_vectorstore_exist (open_chroma stored) embeddings = (open_chroma stored, Raise x)"
    using exists_check_raises by blast
  then show ?thesis by (simp add: main_def open_chroma_def)
next
  case True
  have c0: "collection (db (fst (does_vectorstore_exist (open_chroma stored) embeddings))) = stored"
    by (simp add: exists_check_collection open_chroma_def)
  show ?thesis
    apply (simp only: main_def)
    apply (subst exists_check_result [OF True])
    apply (auto simp add: open_chroma_def db_get_def process_documents_def persist_def
             foldl_from_documents foldl_add_documents c0 [unfolded open_chroma_def]
           split: sum.splits prod.splits outcome.splits bool.splits if_splits)
    done
qed

lemma covered_rescan:
  assumes cover: "\<forall>p \<in> set (filtered_files files (map source stored)).
                    p \<in> source ` set (stored @ new)"
  shows "filtered_files files (map source (stored @ new)) = []"
proof -
  have "\<forall>p \<in> set files. p \<in> set (map source (stored @ new))"
  proof
    fix p assume p: "p \<in> set files"
    show "p \<in> set (map source (stored @ new))"
    proof (cases "p \<in> set (map source stored)")
      case True
      then show ?thesis by auto
    next
      case False
      with p have "p \<in> set (filtered_files files (map source stored))"
        by (simp add: filtered_files_def)
      with cover show ?thesis by auto
    qed
  qed
  then show ?thesis by (simp add: filtered_files_def filter_empty_conv)
qed


subsection \<open>Nothing to load\<close>

text \<open>
  C5. When the filtered candidate set is empty (and the existence check let the run get
  as far as the scan), the run ends in the no-new-documents exit with status 0. The
  chunker is never called, no batch is handed to the store and nothing is persisted: the
  only calls of the whole run are the reads made before the scan, by the existence check
  and, for an index with records, by the listing of the stored sources. The records of
  the index are untouched.
\<close>

theorem main_no_new_documents:
  assumes probe: "probe_passes embeddings"
    and none: "filtered_files (all_files source_directory tree) (map source stored) = []"
  shows "snd (main embeddings run_loader split_documents source_directory tree stored) = Exit 0 \<and>
         exit_status (snd (main embeddings run_loader split_documents source_directory tree stored)) = 0 \<and>
         calls (fst (main embeddings run_loader split_documents source_directory tree stored)) =
           calls (fst (does_vectorstore_exist (open_chroma stored) embeddings)) @
           (if stored = [] then [] else [Get]) \<and>
         (\<forall>c \<in> set (calls (fst (main embeddings run_loader split_documents source_directory tree stored))).
            c = Get) \<and>
         collection (db (fst (main embeddings run_loader split_documents source_directory tree stored))) = stored"
  using exists_check_calls [of stored embeddings]
  by (simp add: main_nothing_to_load [OF probe none] db_get_def exists_check_collection
        open_chroma_collection)

theorem main_no_new_documents_witness:
  "filtered_files (all_files ''source_documents'' [File ''README''])
     (map source ([] :: document list)) = [] \<and>
   snd (main ProbeReturns text_loader short_text_splitter ''source_documents''
          [File ''README''] []) = Exit 0 \<and>
   calls (fst (main ProbeReturns text_loader short_text_splitter ''source_documents''
          [File ''README''] [])) = [Get]"
proof -
  have probe: "probe_passes (ProbeReturns :: unit probe)" by simp
  have none: "filtered_files (all_files ''source_documents'' [File ''README''])
     (map source ([] :: document list)) = []"
    by code_simp
  from main_no_new_documents [OF probe none, of text_loader short_text_splitter] none
  show ?thesis by (simp add: db_get_def open_chroma_def)
qed


subsection \<open>Ingesting into an index without records\<close>

text \<open>
  C1, as the code has it. On an index without records, every batch of the chunk
  sequence, the first and every later one, is handed to the store by
  \<open>Chroma.from_documents\<close> on the same client, in order, and \<open>db\<close> is rebound to the
  handle each call returns; no batch goes through \<open>add_documents\<close>. With all handles
  of the client sharing one collection, the index ends up holding the whole chunk
  sequence.
\<close>

theorem main_fresh_index_submissions:
  assumes probe: "probe_passes embeddings"
    and docs: "load_documents run_loader source_directory tree [] = Inr documents"
    and ne: "documents \<noteq> []"
  shows "submissions (calls (fst (main embeddings run_loader split_documents source_directory tree []))) =
           map FromDocuments (batches (split_documents chunk_size chunk_overlap documents)) \<and>
         collection (db (fst (main embeddings run_loader split_documents source_directory tree []))) =
           split_documents chunk_size chunk_overlap documents"
proof -
  have reads: "submissions (calls (fst (does_vectorstore_exist (open_chroma []) embeddings))) = []"
    by (rule submissions_reads) (rule exists_check_calls)
  show ?thesis
    by (simp add: main_fresh_run [OF probe docs ne] persist_def foldl_from_documents
          submissions_append submissions_from reads exists_check_collection
          batches_concat open_chroma_collection submissions_simps)
qed

theorem main_fresh_index_submissions_witness:
  "load_documents text_loader ''source_documents'' [File ''a.txt''] [] =
     Inr [\<lparr>page_content = ''hello'', source = ''source_documents/a.txt''\<rparr>] \<and>
   submissions (calls (fst (main ProbeReturns text_loader short_text_splitter
     ''source_documents'' [File ''a.txt''] []))) =
     [FromDocuments [\<lparr>page_content = ''hello'', source = ''source_documents/a.txt''\<rparr>]]"
proof -
  have probe: "probe_passes (ProbeReturns :: unit probe)" by simp
  have docs: "load_documents text_loader ''source_documents'' [File ''a.txt''] [] =
     Inr [\<lparr>page_content = ''hello'', source = ''source_documents/a.txt''\<rparr>]"
    by code_simp
  have one: "batches [\<lparr>page_content = ''hello'', source = ''source_documents/a.txt''\<rparr>] =
     [[\<lparr>page_content = ''hello'', source = ''source_documents/a.txt''\<rparr>]]"
    by code_simp
  from main_fresh_index_submissions [OF probe docs, of short_text_splitter] docs one
  show ?thesis by (simp add: short_text_splitter_def)
qed

text \<open>
  C1, as the specification words it, fails: one table of fifty-one rows gives fifty-one
  chunks and two batches, and the second batch is created with \<open>from_documents\<close> too, not
  appended.
\<close>

theorem create_then_append_counterexample:
  "\<not> create_then_append (calls (fst (main ProbeReturns table_loader short_text_splitter
        ''source_documents'' corpus_with_table [])))"
  by code_simp


subsection \<open>Running twice\<close>

lemma main_fresh_collection:
  assumes probe: "probe_passes embeddings"
    and docs: "load_documents run_loader source_directory tree [] = Inr documents"
    and ne: "documents \<noteq> []"
  shows "collection (db (fst (main embeddings run_loader split_documents source_directory
                                tree []))) =
           split_documents chunk_size chunk_overlap documents"
  by (simp add: main_fresh_run [OF probe docs ne] persist_def foldl_from_documents
        exists_check_collection batches_concat open_chroma_collection)

text \<open>
  Once the sources stored by the first run cover every path it had to load, the second
  run finds nothing to load.
\<close>

lemma rerun_covered:
  assumes probe: "probe_passes embeddings"
    and cover: "\<forall>p \<in> set (filtered_files (all_files source_directory tree) (map source stored)).
       p \<in> source ` set (collection (db (fst
             (main embeddings run_loader split_documents source_directory tree stored))))"
  shows "rerun_loads_nothing embeddings run_loader split_documents source_directory tree stored \<and>
         filtered_files (all_files source_directory tree)
           (map source (collection (db (fst
             (main embeddings run_loader split_documents source_directory tree stored))))) = [] \<and>
         snd (main embeddings run_loader split_documents source_directory tree
                (collection (db (fst
                   (main embeddings run_loader split_documents source_directory tree stored))))) = Exit 0"
proof -
  obtain new where new:
    "collection (db (fst (main embeddings run_loader split_documents source_directory tree stored)))
       = stored @ new"
    using main_collection_grows by blast
  from cover have none: "filtered_files (all_files source_directory tree)
      (map source (stored @ new)) = []"
    unfolding new by (rule covered_rescan)
  have "snd (main embeddings run_loader split_documents source_directory tree (stored @ new)) = Exit 0"
    by (simp add: main_nothing_to_load [OF probe none])
  with none show ?thesis
    by (simp add: rerun_loads_nothing_def new load_documents_def)
qed

text \<open>
  C8, as the code has it. Suppose the first run loads its files without error, and every
  file it has to load contributes at least one document and at least one chunk whose
  \<open>source\<close> is the path under which the scan enumerated the file. Then the first run
  stores those chunks, in the fresh branch as in the incremental one, and on an unchanged
  source directory the stored sources exclude every path the scan enumerates again: the
  filtered candidate set of the second run is empty, it loads no document and ends in
  the no-new-documents exit.
\<close>

theorem rerun_loads_nothing_on_output:
  assumes probe: "probe_passes embeddings"
    and docs: "load_documents run_loader source_directory tree (map source stored) = Inr documents"
    and chunks: "\<forall>p \<in> set (filtered_files (all_files source_directory tree) (map source stored)).
       documents \<noteq> [] \<and>
       p \<in> source ` set (split_documents chunk_size chunk_overlap documents)"
  shows "rerun_loads_nothing embeddings run_loader split_documents source_directory tree stored \<and>
         filtered_files (all_files source_directory tree)
           (map source (collection (db (fst
             (main embeddings run_loader split_documents source_directory tree stored))))) = [] \<and>
         snd (main embeddings run_loader split_documents source_directory tree
                (collection (db (fst
                   (main embeddings run_loader split_documents source_directory tree stored))))) = Exit 0"
proof -
  have cover: "\<forall>p \<in> set (filtered_files (all_files source_directory tree) (map source stored)).
       p \<in> source ` set (collection (db (fst
             (main embeddings run_loader split_documents source_directory tree stored))))"
  proof
    fix p
    assume p: "p \<in> set (filtered_files (all_files source_directory tree) (map source stored))"
    with chunks have ne: "documents \<noteq> []"
      and chunk: "p \<in> source ` set (split_documents chunk_size chunk_overlap documents)"
      by auto
    have "set (split_documents chunk_size chunk_overlap documents) \<subseteq>
          set (collection (db (fst
             (main embeddings run_loader split_documents source_directory tree stored))))"
    proof (cases "stored = []")
      case True
      with docs have "load_documents run_loader source_directory tree [] = Inr documents"
        by simp
      from main_fresh_collection [OF probe this ne] True show ?thesis by simp
    next
      case False
      from main_existing_run [OF probe False docs ne] show ?thesis by simp
    qed
    with chunk
    show "p \<in> source ` set (collection (db (fst
             (main embeddings run_loader split_documents source_directory tree stored))))"
      by auto
  qed
  from probe cover show ?thesis by (rule rerun_covered)
qed

theorem rerun_loads_nothing_on_output_witness:
  "load_documents text_loader ''source_documents'' [File ''a.txt'']
      (map source ([] :: document list)) =
     Inr [\<lparr>page_content = ''hello'', source = ''source_documents/a.txt''\<rparr>] \<and>
   collection (db (fst (main ProbeReturns text_loader short_text_splitter
      ''source_documents'' [File ''a.txt''] []))) =
     [\<lparr>page_content = ''hello'', source = ''source_documents/a.txt''\<rparr>] \<and>
   rerun_loads_nothing ProbeReturns text_loader short_text_splitter
      ''source_documents'' [File ''a.txt''] [] \<and>
   snd (main ProbeReturns text_loader short_text_splitter ''source_documents'' [File ''a.txt'']
      [\<lparr>page_content = ''hello'', source = ''source_documents/a.txt''\<rparr>]) = Exit 0"
proof -
  have probe: "probe_passes (ProbeReturns :: unit probe)" by simp
  have docs: "load_documents text_loader ''source_documents'' [File ''a.txt'']
      (map source ([] :: document list)) =
     Inr [\<lparr>page_content = ''hello'', source = ''source_documents/a.txt''\<rparr>]"
    by code_simp
  have chunks: "\<forall>p \<in> set (filtered_files (all_files ''source_documents'' [File ''a.txt''])
        (map source ([] :: document list))).
       [\<lparr>page_content = ''hello'', source = ''source_documents/a.txt''\<rparr>] \<noteq> [] \<and>
       p \<in> source ` set (short_text_splitter chunk_size chunk_overlap
             [\<lparr>page_content = ''hello'', source = ''source_documents/a.txt''\<rparr>])"
    by code_simp
  have first: "collection (db (fst (main ProbeReturns text_loader short_text_splitter
      ''source_documents'' [File ''a.txt''] []))) =
     [\<lparr>page_content = ''hello'', source = ''source_documents/a.txt''\<rparr>]"
    by code_simp
  from rerun_loads_nothing_on_output
         [where embeddings = "ProbeReturns :: unit probe" and run_loader = text_loader
            and split_documents = short_text_splitter and stored = "[]"
            and source_directory = "''source_documents''" and tree = "[File ''a.txt'']"
            and documents = "[\<lparr>page_content = ''hello'', source = ''source_documents/a.txt''\<rparr>]",
          OF probe docs chunks]
       docs first
  show ?thesis by simp
qed

text \<open>
  C8, as the specification words it, fails: with a text file and an empty file in the
  source directory, the first run stores one chunk for the text file and none for the
  empty one, and the second run loads the empty file again.
\<close>

theorem rerun_loads_nothing_counterexample:
  "\<not> rerun_loads_nothing ProbeReturns text_loader short_text_splitter
        ''source_documents'' corpus_with_empty_file []"
  by code_simp


subsection \<open>Scanning for mixed-case extensions\<close>

text \<open>
  C2. The scan globs each extension of the loader table in its lower-case and its
  upper-case form only. A file \<open>Report.Pdf\<close> is therefore not enumerated, although
  \<open>load_single_document\<close> would dispatch it to the PDF loader, while \<open>Report.PDF\<close> and
  \<open>report.pdf\<close> are.
\<close>

theorem all_files_misses_mixed_case:
  "all_files ''source_documents'' [File ''Report.Pdf''] = [] \<and>
   resolve ''source_documents/Report.Pdf'' = Some (PyPDFLoader, []) \<and>
   all_files ''source_documents'' [File ''Report.PDF'', File ''report.pdf''] =
     [''source_documents/report.pdf'', ''source_documents/Report.PDF'']"
  by code_simp

end
